theory Spec2Isabelle
  imports Complex_Main "HOL-Library.AList"
begin

section \<open>Values, requests and responses\<close>

text \<open>
  The values that \<^verbatim>\<open>res.json()\<close> yields. Python's \<^verbatim>\<open>None\<close> is \<open>JNull\<close>. Integers and
  floats are both numbers; a timestamp is a Python float, taken here as an exact real
  number (rounding of the float addition is not part of the model). An object is the list
  of the items of the parsed dict, looked up with \<open>map_of\<close>.
\<close>

datatype jvalue =
    JNull
  | JBool bool
  | JNum real
  | JStr string
  | JArr "jvalue list"
  | JObj "(string \<times> jvalue) list"

text \<open>Python truthiness, as used by \<^verbatim>\<open>x and ...\<close> and \<^verbatim>\<open>x or ...\<close>.\<close>

fun truthy :: "jvalue \<Rightarrow> bool" where
  "truthy JNull = False"
| "truthy (JBool b) = b"
| "truthy (JNum x) = (x \<noteq> 0)"
| "truthy (JStr s) = (s \<noteq> [])"
| "truthy (JArr xs) = (xs \<noteq> [])"
| "truthy (JObj kvs) = (kvs \<noteq> [])"

text \<open>
  The exceptions that reach the relay. \<open>ConnectTimeout\<close> is, in the HTTP library, a subclass
  of both \<open>Timeout\<close> and \<open>ConnectionError\<close>; \<open>ReadTimeout\<close> is a \<open>Timeout\<close> only.
\<close>

datatype exn =
    ReadTimeout
  | ConnectTimeout
  | ConnectionError
  | TooManyRedirects
  | HTTPError int
  | JSONDecodeError
  | KeyError string
  | TypeError
  | ValueError string



text \<open>
  A header value of an outgoing request: a plain string, the f-string
  \<^verbatim>\<open>f'Bearer {token}'\<close> (kept with the token it was formatted from), or \<^verbatim>\<open>None\<close>.
\<close>

datatype hval = Str string | Bearer jvalue | PyNone

fun of_opt :: "string option \<Rightarrow> hval" where
  "of_opt None = PyNone"
| "of_opt (Some s) = Str s"

type_synonym headers = "(string \<times> hval) list"
type_synonym payload = "(string \<times> jvalue) list option"

text \<open>
  The three calls made on the HTTP session: \<^verbatim>\<open>session.post(url, data=...)\<close>,
  \<^verbatim>\<open>session.get(url, headers=...)\<close> and
  \<^verbatim>\<open>session.request(method, url, headers=..., json=...)\<close>.
\<close>

datatype request =
    Post string "(string \<times> string) list"
  | Get string headers
  | Request string string headers payload

fun is_Request :: "request \<Rightarrow> bool" where
  "is_Request (Request m u h p) = True"
| "is_Request _ = False"

text \<open>
  An upstream response. \<open>json\<close> is the result of \<^verbatim>\<open>response.json()\<close>, \<open>None\<close> where that
  call raises. \<open>headers\<close> is a case-insensitive dict, read with \<open>ci_get\<close>.
\<close>

record response =
  status_code :: int
  resp_text :: string
  headers :: "(string \<times> string) list"
  json :: "jvalue option"

section \<open>Strings\<close>

text \<open>The ASCII letters; every other character is left as it is.\<close>

definition upper_char :: "char \<Rightarrow> char" where
  "upper_char c =
     (case map_of (zip ''abcdefghijklmnopqrstuvwxyz'' ''ABCDEFGHIJKLMNOPQRSTUVWXYZ'') c of
        None \<Rightarrow> c | Some u \<Rightarrow> u)"

definition lower_char :: "char \<Rightarrow> char" where
  "lower_char c =
     (case map_of (zip ''ABCDEFGHIJKLMNOPQRSTUVWXYZ'' ''abcdefghijklmnopqrstuvwxyz'') c of
        None \<Rightarrow> c | Some l \<Rightarrow> l)"

text \<open>\<^verbatim>\<open>s.upper()\<close> on ASCII text.\<close>

definition upper :: "string \<Rightarrow> string" where
  "upper s = map upper_char s"

definition lower :: "string \<Rightarrow> string" where
  "lower s = map lower_char s"

text \<open>\<^verbatim>\<open>s.startswith(p)\<close>.\<close>

fun startswith :: "string \<Rightarrow> string \<Rightarrow> bool" where
  "startswith s [] = True"
| "startswith [] (p # ps) = False"
| "startswith (c # cs) (p # ps) = (c = p \<and> startswith cs ps)"

text \<open>\<^verbatim>\<open>sub in s\<close> for strings.\<close>

fun contains :: "string \<Rightarrow> string \<Rightarrow> bool" where
  "contains sub [] = (sub = [])"
| "contains sub (c # cs) = (startswith (c # cs) sub \<or> contains sub cs)"


text \<open>Looking a header up in a case-insensitive dict.\<close>

fun ci_get :: "(string \<times> string) list \<Rightarrow> string \<Rightarrow> string option" where
  "ci_get [] k = None"
| "ci_get ((k', v) # kvs) k = (if lower k' = lower k then Some v else ci_get kvs k)"

section \<open>The environment\<close>

text \<open>
  What the program does not control: the process environment (\<^verbatim>\<open>os.getenv\<close>), the
  upstream platform, which answers a request given the requests sent before it, either
  with a response or with a transport exception, and the clock, whose \<open>n\<close>-th reading is
  \<open>clock n\<close>.
\<close>

record env =
  getenv :: "string \<Rightarrow> string option"
  upstream :: "request list \<Rightarrow> request \<Rightarrow> exn + response"
  clock :: "nat \<Rightarrow> real"

text \<open>The effects of a run: the requests sent so far, oldest first, and the number of clock readings.\<close>

record world =
  sent :: "request list"
  ticks :: nat

definition now :: "env \<Rightarrow> world \<Rightarrow> real \<times> world" where
  "now E w = (clock E (ticks w), w\<lparr>ticks := Suc (ticks w)\<rparr>)"

definition send :: "env \<Rightarrow> request \<Rightarrow> world \<Rightarrow> (exn + response) \<times> world" where
  "send E rq w = (upstream E (sent w) rq, w\<lparr>sent := sent w @ [rq]\<rparr>)"

text \<open>\<^verbatim>\<open>res.raise_for_status()\<close>: an \<open>HTTPError\<close> for a status from 400 to 599.\<close>

definition raises_for_status :: "response \<Rightarrow> bool" where
  "raises_for_status res = (400 \<le> status_code res \<and> status_code res < 600)"

section \<open>The Session Client\<close>

record SACClient =
  base_url :: string
  token_url :: string
  client_id :: string
  client_secret :: string
  access_token :: jvalue
  token_expiry :: real
  csrf_token :: "string option"



text \<open>\<^verbatim>\<open>data['access_token']\<close>: a \<open>KeyError\<close> on a dict without the key, a \<open>TypeError\<close> on anything that is not a dict.\<close>

fun subscript :: "jvalue \<Rightarrow> string \<Rightarrow> exn + jvalue" where
  "subscript (JObj kvs) k = (case map_of kvs k of None \<Rightarrow> Inl (KeyError k) | Some v \<Rightarrow> Inr v)"
| "subscript _ k = Inl TypeError"

text \<open>\<^verbatim>\<open>data.get(k, d)\<close> on a dict.\<close>

fun dict_get :: "jvalue \<Rightarrow> string \<Rightarrow> jvalue \<Rightarrow> jvalue" where
  "dict_get (JObj kvs) k d = (case map_of kvs k of None \<Rightarrow> d | Some v \<Rightarrow> v)"
| "dict_get _ k d = d"

text \<open>The operand of \<^verbatim>\<open>timestamp + x\<close>: a number, or a bool counted as 0 or 1; otherwise a \<open>TypeError\<close>.\<close>

fun num_of :: "jvalue \<Rightarrow> real option" where
  "num_of (JNum x) = Some x"
| "num_of (JBool b) = Some (of_bool b)"
| "num_of _ = None"

definition token_form :: "SACClient \<Rightarrow> (string \<times> string) list" where
  "token_form c = [(''grant_type'', ''client_credentials''),
                   (''client_id'', client_id c),
                   (''client_secret'', client_secret c)]"

text \<open>Lines 39 to 48 of \<^verbatim>\<open>_authenticate\<close>: the token-endpoint call and what follows it.\<close>

definition acquire_token :: "env \<Rightarrow> SACClient \<times> world \<Rightarrow> (exn + jvalue) \<times> SACClient \<times> world" where
  "acquire_token E cw =
     (case cw of (c, w) \<Rightarrow>
      (case send E (Post (token_url c) (token_form c)) w of
         (Inl e, w1) \<Rightarrow> (Inl e, c, w1)
       | (Inr res, w1) \<Rightarrow>
           if raises_for_status res then (Inl (HTTPError (status_code res)), c, w1)
           else (case json res of
              None \<Rightarrow> (Inl JSONDecodeError, c, w1)
            | Some data \<Rightarrow>
               (case subscript data ''access_token'' of
                  Inl e \<Rightarrow> (Inl e, c, w1)
                | Inr tok \<Rightarrow>
                    (let c1 = c\<lparr>access_token := tok\<rparr> in
                     case now E w1 of (t, w2) \<Rightarrow>
                       (case num_of (dict_get data ''expires_in'' (JNum 3600)) of
                          None \<Rightarrow> (Inl TypeError, c1, w2)
                        | Some e \<Rightarrow> (Inr tok, c1\<lparr>token_expiry := t + e - 300\<rparr>, w2)))))))"

text \<open>
  \<^verbatim>\<open>_authenticate\<close>. The clock is read by the guard only when the cached token is truthy
  (\<^verbatim>\<open>and\<close> short-circuits).
\<close>

definition authenticate :: "env \<Rightarrow> SACClient \<times> world \<Rightarrow> (exn + jvalue) \<times> SACClient \<times> world" where
  "authenticate E cw =
     (case cw of (c, w) \<Rightarrow>
        if truthy (access_token c)
        then (case now E w of (t, w1) \<Rightarrow>
                if t < token_expiry c then (Inr (access_token c), c, w1)
                else acquire_token E (c, w1))
        else acquire_token E (c, w))"

definition csrf_headers :: "jvalue \<Rightarrow> headers" where
  "csrf_headers tok = [(''Authorization'', Bearer tok),
                       (''x-csrf-token'', Str ''fetch''),
                       (''x-sap-sac-custom-auth'', Str ''true'')]"

text \<open>\<^verbatim>\<open>_fetch_csrf\<close>.\<close>

definition fetch_csrf :: "env \<Rightarrow> SACClient \<times> world \<Rightarrow> (exn + string option) \<times> SACClient \<times> world" where
  "fetch_csrf E cw =
     (case authenticate E cw of
        (Inl e, c1, w1) \<Rightarrow> (Inl e, c1, w1)
      | (Inr tok, c1, w1) \<Rightarrow>
          (case send E (Get (base_url c1 @ ''/api/v1/csrf'') (csrf_headers tok)) w1 of
             (Inl e, w2) \<Rightarrow> (Inl e, c1, w2)
           | (Inr res, w2) \<Rightarrow>
               if raises_for_status res then (Inl (HTTPError (status_code res)), c1, w2)
               else (let t = ci_get (headers res) ''x-csrf-token''
                     in (Inr t, c1\<lparr>csrf_token := t\<rparr>, w2))))"

text \<open>Line 64: the URL of the request.\<close>

definition build_url :: "string \<Rightarrow> string \<Rightarrow> string" where
  "build_url base endpoint =
     (if startswith endpoint ''/'' then base @ endpoint else base @ ''/'' @ endpoint)"

definition request_headers :: "jvalue \<Rightarrow> headers" where
  "request_headers tok = [(''Authorization'', Bearer tok),
                          (''x-sap-sac-custom-auth'', Str ''true''),
                          (''Content-Type'', Str ''application/json'')]"

definition mutating :: "string \<Rightarrow> bool" where
  "mutating method = (upper method \<in> set [''POST'', ''PUT'', ''DELETE'', ''PATCH''])"

text \<open>Truthiness of the cached CSRF token, a string or \<^verbatim>\<open>None\<close>.\<close>

fun truthy_opt :: "string option \<Rightarrow> bool" where
  "truthy_opt None = False"
| "truthy_opt (Some s) = (s \<noteq> [])"

text \<open>Lines 70 and 71: \<^verbatim>\<open>headers['x-csrf-token'] = self.csrf_token or self._fetch_csrf()\<close>.\<close>

definition attach_csrf ::
  "env \<Rightarrow> string \<Rightarrow> headers \<Rightarrow> SACClient \<times> world \<Rightarrow> (exn + headers) \<times> SACClient \<times> world" where
  "attach_csrf E method h cw =
     (case cw of (c, w) \<Rightarrow>
        if mutating method
        then (if truthy_opt (csrf_token c)
              then (Inr (AList.update ''x-csrf-token'' (of_opt (csrf_token c)) h), c, w)
              else (case fetch_csrf E (c, w) of
                      (Inl e, c1, w1) \<Rightarrow> (Inl e, c1, w1)
                    | (Inr t, c1, w1) \<Rightarrow>
                        (Inr (AList.update ''x-csrf-token'' (of_opt t) h), c1, w1)))
        else (Inr h, c, w))"

text \<open>The retry test of line 76.\<close>

definition csrf_rejected :: "response \<Rightarrow> bool" where
  "csrf_rejected r = (status_code r = 403 \<and> contains ''CSRF'' (upper (resp_text r)))"

text \<open>\<^verbatim>\<open>_sync_request\<close>.\<close>

definition sync_request ::
  "env \<Rightarrow> string \<Rightarrow> string \<Rightarrow> payload \<Rightarrow> SACClient \<times> world
     \<Rightarrow> (exn + response) \<times> SACClient \<times> world" where
  "sync_request E method endpoint pl cw =
     (let url = build_url (base_url (fst cw)) endpoint in
      case authenticate E cw of
        (Inl e, c1, w1) \<Rightarrow> (Inl e, c1, w1)
      | (Inr tok, c1, w1) \<Rightarrow>
          (case attach_csrf E method (request_headers tok) (c1, w1) of
             (Inl e, c2, w2) \<Rightarrow> (Inl e, c2, w2)
           | (Inr h, c2, w2) \<Rightarrow>
               (case send E (Request (upper method) url h pl) w2 of
                  (Inl e, w3) \<Rightarrow> (Inl e, c2, w3)
                | (Inr r, w3) \<Rightarrow>
                    if csrf_rejected r
                    then (case fetch_csrf E (c2, w3) of
                            (Inl e, c4, w4) \<Rightarrow> (Inl e, c4, w4)
                          | (Inr t, c4, w4) \<Rightarrow>
                              (case send E (Request (upper method) url
                                              (AList.update ''x-csrf-token'' (of_opt t) h) pl) w4 of
                                 (r2, w5) \<Rightarrow> (r2, c4, w5)))
                    else (Inr r, c2, w3))))"

text \<open>
  Lines 64 to 71 on their own: the request that line 73 sends, once the bearer token and,
  for a mutating method, the CSRF token have been obtained.
\<close>

definition prepare ::
  "env \<Rightarrow> string \<Rightarrow> string \<Rightarrow> payload \<Rightarrow> SACClient \<times> world
     \<Rightarrow> (exn + request) \<times> SACClient \<times> world" where
  "prepare E method endpoint pl cw =
     (case authenticate E cw of
        (Inl e, c1, w1) \<Rightarrow> (Inl e, c1, w1)
      | (Inr tok, c1, w1) \<Rightarrow>
          (case attach_csrf E method (request_headers tok) (c1, w1) of
             (Inl e, c2, w2) \<Rightarrow> (Inl e, c2, w2)
           | (Inr h, c2, w2) \<Rightarrow>
               (Inr (Request (upper method) (build_url (base_url (fst cw)) endpoint) h pl), c2, w2)))"

text \<open>The requests sent between two states of the world.\<close>

definition sent_between :: "world \<Rightarrow> world \<Rightarrow> request list" where
  "sent_between w w' = drop (length (sent w)) (sent w')"

section \<open>The relay endpoint\<close>








section \<open>A sample deployment\<close>

text \<open>
  A concrete environment on which the theorems below are instantiated. The token endpoint
  issues \<open>tok1\<close> first and \<open>tok2\<close> afterwards, each valid for 3600 seconds; the CSRF
  endpoint echoes \<open>csrf1\<close> before the first API request and \<open>csrf2\<close> after it; the API
  rejects the first request with a 403 that names the CSRF token and accepts the next.
  The first two clock readings are close together, later ones fall after the first
  token has expired. The text of a sample response is left empty where only its parsed
  body or its headers are read.
\<close>

definition token_response :: "string \<Rightarrow> response" where
  "token_response tok =
     \<lparr>status_code = 200, resp_text = '''',
      headers = [(''Content-Type'', ''application/json'')],
      json = Some (JObj [(''access_token'', JStr tok), (''expires_in'', JNum 3600)])\<rparr>"

definition csrf_response :: "string \<Rightarrow> response" where
  "csrf_response t =
     \<lparr>status_code = 200, resp_text = '''',
      headers = [(''X-CSRF-Token'', t)], json = None\<rparr>"

definition rejected_response :: response where
  "rejected_response =
     \<lparr>status_code = 403, resp_text = ''csrf token validation failed'',
      headers = [(''Content-Type'', ''text/plain'')], json = None\<rparr>"

definition ok_response :: response where
  "ok_response =
     \<lparr>status_code = 200, resp_text = ''[]'',
      headers = [(''Content-Type'', ''application/json; charset=utf-8'')],
      json = Some (JArr [])\<rparr>"

fun sample_upstream :: "request list \<Rightarrow> request \<Rightarrow> exn + response" where
  "sample_upstream past (Post u f) =
     Inr (token_response (if past = [] then ''tok1'' else ''tok2''))"
| "sample_upstream past (Get u h) =
     Inr (csrf_response (if filter is_Request past = [] then ''csrf1'' else ''csrf2''))"
| "sample_upstream past (Request m u h p) =
     Inr (if filter is_Request past = [] then rejected_response else ok_response)"

definition sample_getenv :: "string \<Rightarrow> string option" where
  "sample_getenv k =
     (if k = ''SAC_BASE_URL'' then Some ''https://sac.example/''
      else if k = ''SAC_TOKEN_URL'' then Some ''https://auth.example/token''
      else if k = ''SAC_CLIENT_ID'' then Some ''id''
      else if k = ''SAC_CLIENT_SECRET'' then Some ''secret''
      else None)"

definition sample_clock :: "nat \<Rightarrow> real" where
  "sample_clock n = (if n < 2 then 1000 + real n else 9000)"

definition sample_env :: env where
  "sample_env = \<lparr>getenv = sample_getenv, upstream = sample_upstream, clock = sample_clock\<rparr>"

definition sample_client :: SACClient where
  "sample_client =
     \<lparr>base_url = ''https://sac.example'', token_url = ''https://auth.example/token'',
      client_id = ''id'', client_secret = ''secret'',
      access_token = JNull, token_expiry = 0, csrf_token = None\<rparr>"

definition fresh_world :: world where
  "fresh_world = \<lparr>sent = [], ticks = 0\<rparr>"

text \<open>An upstream that gives the same answer to every request, and a client that holds a token.\<close>

definition fixed_upstream :: "exn + response \<Rightarrow> request list \<Rightarrow> request \<Rightarrow> exn + response" where
  "fixed_upstream a past rq = a"

definition fixed_env :: "exn + response \<Rightarrow> env" where
  "fixed_env a = \<lparr>getenv = sample_getenv, upstream = fixed_upstream a, clock = sample_clock\<rparr>"

definition cached_client :: SACClient where
  "cached_client =
     \<lparr>base_url = ''https://sac.example'', token_url = ''https://auth.example/token'',
      client_id = ''id'', client_secret = ''secret'',
      access_token = JStr ''tok1'', token_expiry = 4300, csrf_token = Some ''csrf1''\<rparr>"

section \<open>What each operation sends and what it leaves alone\<close>

lemmas sample_defs = sample_env_def sample_client_def fresh_world_def sample_getenv_def
  sample_clock_def token_response_def csrf_response_def rejected_response_def ok_response_def
  fixed_upstream_def fixed_env_def cached_client_def

lemmas run_defs = authenticate_def acquire_token_def fetch_csrf_def attach_csrf_def
  sync_request_def prepare_def send_def now_def raises_for_status_def csrf_rejected_def
  token_form_def csrf_headers_def request_headers_def mutating_def build_url_def
  upper_def upper_char_def lower_def lower_char_def Let_def

lemma startswith_slash: "startswith s ''/'' \<longleftrightarrow> (\<exists>t. s = CHR ''/'' # t)"
  by (cases s) auto

lemma acquire_token_sent:
  "acquire_token E (c, w) = (res, c', w') \<Longrightarrow>
     sent w' = sent w @ [Post (token_url c) (token_form c)]"
  by (auto simp: acquire_token_def send_def now_def Let_def
           split: sum.splits option.splits if_splits prod.splits)

lemma acquire_token_frame:
  "acquire_token E (c, w) = (res, c', w') \<Longrightarrow>
     base_url c' = base_url c \<and> token_url c' = token_url c \<and> client_id c' = client_id c
     \<and> client_secret c' = client_secret c \<and> csrf_token c' = csrf_token c"
  by (auto simp: acquire_token_def send_def now_def Let_def
           split: sum.splits option.splits if_splits prod.splits)

lemma authenticate_sent:
  "authenticate E (c, w) = (res, c', w') \<Longrightarrow>
     sent w' = sent w \<or> sent w' = sent w @ [Post (token_url c) (token_form c)]"
  by (auto simp: authenticate_def now_def dest!: acquire_token_sent split: if_splits)

lemma authenticate_frame:
  "authenticate E (c, w) = (res, c', w') \<Longrightarrow>
     base_url c' = base_url c \<and> token_url c' = token_url c \<and> client_id c' = client_id c
     \<and> client_secret c' = client_secret c \<and> csrf_token c' = csrf_token c"
  by (auto simp: authenticate_def now_def dest!: acquire_token_frame split: if_splits)

lemma fetch_csrf_sent:
  assumes "fetch_csrf E (c, w) = (res, c', w')"
  shows "\<exists>xs. sent w' = sent w @ xs \<and> (\<forall>x\<in>set xs. \<not> is_Request x)"
proof -
  obtain r1 c1 w1 where a: "authenticate E (c, w) = (r1, c1, w1)"
    by (cases "authenticate E (c, w)") auto
  from authenticate_sent [OF a] assms a show ?thesis
    by (auto simp: fetch_csrf_def send_def Let_def split: sum.splits if_splits)
qed

lemma fetch_csrf_frame:
  assumes "fetch_csrf E (c, w) = (res, c', w')"
  shows "base_url c' = base_url c \<and> token_url c' = token_url c \<and> client_id c' = client_id c
     \<and> client_secret c' = client_secret c"
proof -
  obtain r1 c1 w1 where a: "authenticate E (c, w) = (r1, c1, w1)"
    by (cases "authenticate E (c, w)") auto
  from authenticate_frame [OF a] assms a show ?thesis
    by (auto simp: fetch_csrf_def send_def Let_def split: sum.splits if_splits)
qed

text \<open>
  A fetch that returns has asked the upstream, whatever token was cached: its last request
  is the CSRF GET, and what it returns and caches is the token echoed in the answer.
\<close>

lemma fetch_csrf_forced:
  assumes "fetch_csrf E (c, w) = (Inr t, c', w')"
  shows "\<exists>hs g. length (sent w) < length (sent w')
           \<and> last (sent w') = Get (base_url c @ ''/api/v1/csrf'') hs
           \<and> upstream E (butlast (sent w')) (last (sent w')) = Inr g
           \<and> t = ci_get (headers g) ''x-csrf-token'' \<and> csrf_token c' = t"
proof -
  obtain r1 c1 w1 where a: "authenticate E (c, w) = (r1, c1, w1)"
    by (cases "authenticate E (c, w)") auto
  from authenticate_sent [OF a] authenticate_frame [OF a] assms a show ?thesis
    by (auto simp: fetch_csrf_def send_def Let_def butlast_append split: sum.splits if_splits)
qed

lemma attach_csrf_sent:
  assumes "attach_csrf E method h (c, w) = (res, c', w')"
  shows "\<exists>xs. sent w' = sent w @ xs \<and> (\<forall>x\<in>set xs. \<not> is_Request x)"
proof (cases "mutating method \<and> \<not> truthy_opt (csrf_token c)")
  case True
  obtain r1 c1 w1 where f: "fetch_csrf E (c, w) = (r1, c1, w1)"
    by (cases "fetch_csrf E (c, w)") auto
  from fetch_csrf_sent [OF f] assms f True show ?thesis
    by (auto simp: attach_csrf_def split: sum.splits)
next
  case False
  with assms show ?thesis by (auto simp: attach_csrf_def split: if_splits)
qed

lemma attach_csrf_frame:
  assumes "attach_csrf E method h (c, w) = (res, c', w')"
  shows "base_url c' = base_url c \<and> token_url c' = token_url c \<and> client_id c' = client_id c
     \<and> client_secret c' = client_secret c"
proof (cases "mutating method \<and> \<not> truthy_opt (csrf_token c)")
  case True
  obtain r1 c1 w1 where f: "fetch_csrf E (c, w) = (r1, c1, w1)"
    by (cases "fetch_csrf E (c, w)") auto
  from fetch_csrf_frame [OF f] assms f True show ?thesis
    by (auto simp: attach_csrf_def split: sum.splits)
next
  case False
  with assms show ?thesis by (auto simp: attach_csrf_def split: if_splits)
qed

lemma prepare_sent:
  assumes "prepare E method endpoint pl (c, w) = (res, c', w')"
  shows "\<exists>xs. sent w' = sent w @ xs \<and> (\<forall>x\<in>set xs. \<not> is_Request x)"
proof -
  obtain r1 c1 w1 where a: "authenticate E (c, w) = (r1, c1, w1)"
    by (cases "authenticate E (c, w)") auto
  show ?thesis
  proof (cases r1)
    case (Inl e)
    with assms a authenticate_sent [OF a] show ?thesis
      by (auto simp: prepare_def)
  next
    case (Inr tok)
    obtain r2 c2 w2 where b: "attach_csrf E method (request_headers tok) (c1, w1) = (r2, c2, w2)"
      by (cases "attach_csrf E method (request_headers tok) (c1, w1)") auto
    from attach_csrf_sent [OF b] obtain ys where
      ys: "sent w2 = sent w1 @ ys" "\<forall>x\<in>set ys. \<not> is_Request x" by blast
    from assms a b Inr have w': "w' = w2"
      by (auto simp: prepare_def split: sum.splits)
    from authenticate_sent [OF a] ys w' show ?thesis by auto
  qed
qed

text \<open>\<open>sync_request\<close> is \<open>prepare\<close>, the first attempt, and the retry of lines 76 to 78.\<close>

lemma sync_request_prepare:
  "sync_request E method endpoint pl cw =
     (case prepare E method endpoint pl cw of
        (Inl e, c2, w2) \<Rightarrow> (Inl e, c2, w2)
      | (Inr q, c2, w2) \<Rightarrow>
          (case send E q w2 of
             (Inl e, w3) \<Rightarrow> (Inl e, c2, w3)
           | (Inr r, w3) \<Rightarrow>
               if csrf_rejected r
               then (case fetch_csrf E (c2, w3) of
                       (Inl e, c4, w4) \<Rightarrow> (Inl e, c4, w4)
                     | (Inr t, c4, w4) \<Rightarrow>
                         (case q of Request m u h p \<Rightarrow>
                            (case send E (Request m u (AList.update ''x-csrf-token'' (of_opt t) h) p) w4 of
                               (r2, w5) \<Rightarrow> (r2, c4, w5))))
               else (Inr r, c2, w3)))"
  by (auto simp: sync_request_def prepare_def Let_def split: prod.splits sum.splits)

lemma prepare_request:
  assumes "prepare E method endpoint pl (c, w) = (Inr q, c', w')"
  shows "\<exists>tok c1 w1 h. authenticate E (c, w) = (Inr tok, c1, w1)
           \<and> attach_csrf E method (request_headers tok) (c1, w1) = (Inr h, c', w')
           \<and> q = Request (upper method) (build_url (base_url c) endpoint) h pl"
  using assms by (auto simp: prepare_def split: prod.splits sum.splits)

section \<open>The request URL\<close>

text \<open>
  C4, as amended. The URL of the request is the base URL followed by the endpoint, with one
  slash put between them only when the endpoint does not begin with a slash. So what
  follows the base URL always begins with a slash, and \<open>version\<close> and \<open>/version\<close> give the
  same URL; an endpoint that begins with several slashes keeps them all.
\<close>

theorem request_url_slash:
  assumes "prepare E method endpoint pl (c, w) = (Inr q, c', w')"
  shows "\<exists>h url. q = Request (upper method) url h pl
           \<and> url = base_url c @ (if startswith endpoint ''/'' then endpoint else ''/'' @ endpoint)
           \<and> startswith (drop (length (base_url c)) url) ''/''
           \<and> (endpoint = ''version'' \<or> endpoint = ''/version''
                \<longrightarrow> url = base_url c @ ''/version'')"
proof -
  from prepare_request [OF assms] obtain h where
    q: "q = Request (upper method) (build_url (base_url c) endpoint) h pl" by blast
  have "startswith (drop (length (base_url c)) (build_url (base_url c) endpoint)) ''/''"
    by (simp add: build_url_def)
  with q show ?thesis by (auto simp: build_url_def)
qed

theorem request_url_slash_witness:
  "\<exists>h. fst (prepare sample_env ''GET'' ''version'' None (sample_client, fresh_world))
          = Inr (Request ''GET'' ''https://sac.example/version'' h None)"
proof -
  obtain q c' w' where
    run: "prepare sample_env ''GET'' ''version'' None (sample_client, fresh_world) = (Inr q, c', w')"
    by (simp add: run_defs sample_defs)
  from request_url_slash [OF run] run show ?thesis
    by (auto simp: sample_defs upper_def upper_char_def)
qed

text \<open>
  C4 as stated fails: the endpoint \<open>//version\<close> is sent to the base URL followed by
  \<open>//version\<close>.
\<close>

theorem request_url_double_slash:
  "fst (prepare sample_env ''GET'' ''//version'' None (sample_client, fresh_world))
     = Inr (Request ''GET'' ''https://sac.example//version''
              [(''Authorization'', Bearer (JStr ''tok1'')),
               (''x-sap-sac-custom-auth'', Str ''true''),
               (''Content-Type'', Str ''application/json'')] None)"
  by (simp add: run_defs sample_defs)

section \<open>The envelope\<close>



section \<open>Errors at the relay boundary\<close>





section \<open>The access token\<close>

lemma authenticate_acquire:
  "\<not> truthy (access_token c) \<or> token_expiry c \<le> clock E (ticks w) \<Longrightarrow>
     \<exists>w0. authenticate E (c, w) = acquire_token E (c, w0) \<and> sent w0 = sent w
        \<and> ticks w0 = ticks w + (if truthy (access_token c) then 1 else 0)"
  by (auto simp: authenticate_def now_def)

text \<open>
  C2. A client whose cached token is truthy (for a string: not empty) and whose clock reads
  less than the cached expiry returns that very token, keeps its state and sends nothing.
  A client without such a token, or whose clock reads the expiry or more, sends the
  token-endpoint request.
\<close>

theorem authenticate_cached_token:
  "(truthy (access_token c) \<and> clock E (ticks w) < token_expiry c \<longrightarrow>
      (\<exists>w'. authenticate E (c, w) = (Inr (access_token c), c, w') \<and> sent w' = sent w))
   \<and> (\<not> truthy (access_token c) \<or> token_expiry c \<le> clock E (ticks w) \<longrightarrow>
      (\<exists>res c' w'. authenticate E (c, w) = (res, c', w')
          \<and> sent w' = sent w @ [Post (token_url c) (token_form c)]))"
proof (intro conjI impI)
  assume "truthy (access_token c) \<and> clock E (ticks w) < token_expiry c"
  then show "\<exists>w'. authenticate E (c, w) = (Inr (access_token c), c, w') \<and> sent w' = sent w"
    by (simp add: authenticate_def now_def)
next
  assume "\<not> truthy (access_token c) \<or> token_expiry c \<le> clock E (ticks w)"
  from authenticate_acquire [OF this] obtain w0 where
    a: "authenticate E (c, w) = acquire_token E (c, w0)" and s: "sent w0 = sent w" by blast
  obtain res c' w' where r: "acquire_token E (c, w0) = (res, c', w')"
    by (cases "acquire_token E (c, w0)") auto
  from acquire_token_sent [OF r] a r s
  show "\<exists>res c' w'. authenticate E (c, w) = (res, c', w')
          \<and> sent w' = sent w @ [Post (token_url c) (token_form c)]"
    by simp
qed

text \<open>The client holding \<open>tok1\<close> until 4300, asked at 1001: the token comes from the cache.\<close>

theorem authenticate_cached_token_witness:
  "\<exists>w'. authenticate sample_env (cached_client, \<lparr>sent = [], ticks = 1\<rparr>)
           = (Inr (JStr ''tok1''), cached_client, w') \<and> sent w' = []"
  using authenticate_cached_token [of cached_client sample_env "\<lparr>sent = [], ticks = 1\<rparr>"]
  by (simp add: sample_defs)




section \<open>Failure of the token request\<close>

lemma subscript_error: "subscript d k = Inl e \<Longrightarrow> e = TypeError \<or> e = KeyError k"
  by (cases d) (auto split: option.splits)

lemma subscript_ok:
  "subscript d k = Inr v \<longleftrightarrow> (\<exists>kvs. d = JObj kvs \<and> map_of kvs k = Some v)"
  by (cases d) (auto split: option.splits)




section \<open>The headers of the request\<close>

lemma map_of_request_headers:
  "map_of (request_headers tok) ''Authorization'' = Some (Bearer tok)
   \<and> map_of (request_headers tok) ''x-csrf-token'' = None"
  by (simp add: request_headers_def)

lemma attach_csrf_headers:
  assumes "attach_csrf E method h (c, w) = (Inr h', c', w')"
  shows "(\<forall>k. k \<noteq> ''x-csrf-token'' \<longrightarrow> map_of h' k = map_of h k)
       \<and> (mutating method \<and> truthy_opt (csrf_token c) \<longrightarrow>
            map_of h' ''x-csrf-token'' = Some (of_opt (csrf_token c)) \<and> c' = c \<and> w' = w)
       \<and> (mutating method \<and> \<not> truthy_opt (csrf_token c) \<longrightarrow>
            (\<exists>t. fetch_csrf E (c, w) = (Inr t, c', w')
                \<and> map_of h' ''x-csrf-token'' = Some (of_opt t)))
       \<and> (\<not> mutating method \<longrightarrow> h' = h \<and> c' = c \<and> w' = w)"
  using assms
  by (auto simp: attach_csrf_def update_conv' split: if_splits prod.splits sum.splits)



section \<open>The retry\<close>

lemma prepare_frame:
  assumes "prepare E method endpoint pl (c, w) = (res, c', w')"
  shows "base_url c' = base_url c"
proof -
  obtain r1 c1 w1 where a: "authenticate E (c, w) = (r1, c1, w1)"
    by (cases "authenticate E (c, w)") auto
  show ?thesis
  proof (cases r1)
    case (Inl e)
    with assms a authenticate_frame [OF a] show ?thesis by (simp add: prepare_def)
  next
    case (Inr tok)
    obtain r2 c2 w2 where b: "attach_csrf E method (request_headers tok) (c1, w1) = (r2, c2, w2)"
      by (cases "attach_csrf E method (request_headers tok) (c1, w1)") auto
    from assms a b Inr have "c' = c2" by (auto simp: prepare_def split: sum.splits)
    with authenticate_frame [OF a] attach_csrf_frame [OF b] show ?thesis by simp
  qed
qed

text \<open>The two ways a run goes on once the first attempt has been answered.\<close>

lemma sync_request_once:
  assumes "prepare E method endpoint pl (c, w) = (Inr q, c1, w1)"
      and "upstream E (sent w1) q = Inr r"
      and "\<not> csrf_rejected r"
  shows "sync_request E method endpoint pl (c, w) = (Inr r, c1, w1\<lparr>sent := sent w1 @ [q]\<rparr>)"
  using assms by (simp add: sync_request_prepare send_def)

lemma sync_request_retry:
  assumes "prepare E method endpoint pl (c, w) = (Inr q, c1, w1)"
      and "upstream E (sent w1) q = Inr r"
      and "csrf_rejected r"
      and "fetch_csrf E (c1, w1\<lparr>sent := sent w1 @ [q]\<rparr>) = (Inr t, c2, w2)"
  shows "\<exists>h. q = Request (upper method) (build_url (base_url c) endpoint) h pl
           \<and> sync_request E method endpoint pl (c, w)
               = (upstream E (sent w2)
                    (Request (upper method) (build_url (base_url c) endpoint)
                       (AList.update ''x-csrf-token'' (of_opt t) h) pl),
                  c2,
                  w2\<lparr>sent := sent w2 @
                     [Request (upper method) (build_url (base_url c) endpoint)
                        (AList.update ''x-csrf-token'' (of_opt t) h) pl]\<rparr>)"
proof -
  from prepare_request [OF assms(1)] obtain h where
    q: "q = Request (upper method) (build_url (base_url c) endpoint) h pl" by blast
  show ?thesis
    using assms q by (simp add: sync_request_prepare send_def)
qed

lemma filter_no_Request: "\<forall>x\<in>set xs. \<not> is_Request x \<Longrightarrow> filter is_Request xs = []"
  by (induction xs) auto

text \<open>
  C1. Once the credentials are there and the upstream has answered the first attempt with
  a response \<open>r\<close>: if \<open>r\<close> has status 403 and its text, in upper case, contains \<open>CSRF\<close>, the
  client runs \<open>fetch_csrf\<close>, which asks the CSRF endpoint whatever token is cached, and when
  that returns a token the request is sent once more and the outcome of this second
  attempt, of any status, is what the client returns; the requests of the run are these
  two. In every other case the client returns \<open>r\<close> and the request of the run is this one.
\<close>

theorem csrf_retry_once:
  assumes "prepare E method endpoint pl (c, w) = (Inr q, c1, w1)"
      and "upstream E (sent w1) q = Inr r"
  shows "(csrf_rejected r \<longrightarrow>
            (\<forall>t c2 w2. fetch_csrf E (c1, w1\<lparr>sent := sent w1 @ [q]\<rparr>) = (Inr t, c2, w2) \<longrightarrow>
               (\<exists>q2 w3 hs.
                   sync_request E method endpoint pl (c, w) = (upstream E (sent w2) q2, c2, w3)
                   \<and> filter is_Request (sent_between w w3) = [q, q2]
                   \<and> last (sent w2) = Get (base_url c @ ''/api/v1/csrf'') hs
                   \<and> sent w3 = sent w2 @ [q2])))
       \<and> (\<not> csrf_rejected r \<longrightarrow>
            (\<exists>w3. sync_request E method endpoint pl (c, w) = (Inr r, c1, w3)
                \<and> filter is_Request (sent_between w w3) = [q]))"
proof (intro conjI impI allI)
  from prepare_sent [OF assms(1)] obtain xs where
    xs: "sent w1 = sent w @ xs" "\<forall>x\<in>set xs. \<not> is_Request x" by blast
  from prepare_request [OF assms(1)] have isq: "is_Request q" by auto
  {
    assume "\<not> csrf_rejected r"
    from sync_request_once [OF assms this]
    have run: "sync_request E method endpoint pl (c, w) = (Inr r, c1, w1\<lparr>sent := sent w1 @ [q]\<rparr>)" .
    have "filter is_Request (sent_between w (w1\<lparr>sent := sent w1 @ [q]\<rparr>)) = [q]"
      using xs isq by (simp add: sent_between_def filter_no_Request)
    with run show "\<exists>w3. sync_request E method endpoint pl (c, w) = (Inr r, c1, w3)
                \<and> filter is_Request (sent_between w w3) = [q]"
      by blast
  }
  {
    fix t c2 w2
    assume rej: "csrf_rejected r"
      and f: "fetch_csrf E (c1, w1\<lparr>sent := sent w1 @ [q]\<rparr>) = (Inr t, c2, w2)"
    from sync_request_retry [OF assms rej f] obtain h where
      q: "q = Request (upper method) (build_url (base_url c) endpoint) h pl"
      and run: "sync_request E method endpoint pl (c, w)
               = (upstream E (sent w2)
                    (Request (upper method) (build_url (base_url c) endpoint)
                       (AList.update ''x-csrf-token'' (of_opt t) h) pl),
                  c2,
                  w2\<lparr>sent := sent w2 @
                     [Request (upper method) (build_url (base_url c) endpoint)
                        (AList.update ''x-csrf-token'' (of_opt t) h) pl]\<rparr>)"
      by blast
    let ?q2 = "Request (upper method) (build_url (base_url c) endpoint)
                 (AList.update ''x-csrf-token'' (of_opt t) h) pl"
    from fetch_csrf_sent [OF f] obtain ys where
      ys: "sent w2 = sent w1 @ [q] @ ys" "\<forall>x\<in>set ys. \<not> is_Request x" by auto
    from fetch_csrf_forced [OF f] prepare_frame [OF assms(1)] obtain hs where
      g: "last (sent w2) = Get (base_url c @ ''/api/v1/csrf'') hs" by auto
    have "filter is_Request (sent_between w (w2\<lparr>sent := sent w2 @ [?q2]\<rparr>)) = [q, ?q2]"
      using xs ys isq by (simp add: sent_between_def filter_no_Request)
    with run g
    show "\<exists>q2 w3 hs.
            sync_request E method endpoint pl (c, w) = (upstream E (sent w2) q2, c2, w3)
            \<and> filter is_Request (sent_between w w3) = [q, q2]
            \<and> last (sent w2) = Get (base_url c @ ''/api/v1/csrf'') hs
            \<and> sent w3 = sent w2 @ [q2]"
      by (intro exI [of _ ?q2] exI [of _ "w2\<lparr>sent := sent w2 @ [?q2]\<rparr>"] exI [of _ hs]) simp
  }
qed

text \<open>The sample CSRF endpoint answers every fetch with a token.\<close>

lemma fetch_csrf_sample: "\<exists>t c' w'. fetch_csrf sample_env (c, w) = (Inr t, c', w')"
proof -
  have a: "\<exists>tok c1 w1. authenticate sample_env (c, w) = (Inr tok, c1, w1)"
    by (simp add: authenticate_def acquire_token_def send_def now_def raises_for_status_def
          token_form_def Let_def sample_env_def token_response_def split: prod.splits)
  then obtain tok c1 w1 where "authenticate sample_env (c, w) = (Inr tok, c1, w1)" by blast
  then show ?thesis
    by (simp add: fetch_csrf_def send_def raises_for_status_def Let_def sample_env_def
          csrf_response_def)
qed

text \<open>
  The sample deployment: the first POST is rejected with a 403 that names the CSRF token,
  the second is accepted, and the run has sent exactly these two.
\<close>

theorem csrf_retry_once_witness:
  "\<exists>c' w' q q2.
     sync_request sample_env ''post'' ''stories'' None (sample_client, fresh_world)
       = (Inr ok_response, c', w')
     \<and> filter is_Request (sent_between fresh_world w') = [q, q2]"
proof -
  obtain q c1 w1 where
    run: "prepare sample_env ''post'' ''stories'' None (sample_client, fresh_world) = (Inr q, c1, w1)"
    and up: "upstream sample_env (sent w1) q = Inr rejected_response"
    and w1: "filter is_Request (sent w1) = []" and q: "is_Request q"
    by (simp add: run_defs sample_defs)
  have rej: "csrf_rejected rejected_response"
    by (simp add: csrf_rejected_def rejected_response_def upper_def upper_char_def)
  obtain t c2 w2 where
    f: "fetch_csrf sample_env (c1, w1\<lparr>sent := sent w1 @ [q]\<rparr>) = (Inr t, c2, w2)"
    using fetch_csrf_sample by blast
  from csrf_retry_once [OF run up] rej f obtain q2 w3 where
    res: "sync_request sample_env ''post'' ''stories'' None (sample_client, fresh_world)
            = (upstream sample_env (sent w2) q2, c2, w3)"
    and two: "filter is_Request (sent_between fresh_world w3) = [q, q2]"
    and w3: "sent w3 = sent w2 @ [q2]"
    by blast
  from two w3 have eq: "filter is_Request (sent w2 @ [q2]) = [q, q2]"
    by (simp add: sent_between_def fresh_world_def)
  have "q2 \<in> set [q, q2]" by simp
  then have "q2 \<in> set (filter is_Request (sent w2 @ [q2]))"
    by (simp only: eq)
  then have isq2: "is_Request q2"
    by (simp only: set_filter mem_Collect_eq)
  with eq have "is_Request q2 \<and> filter is_Request (sent w2) \<noteq> []"
    by auto
  then have "upstream sample_env (sent w2) q2 = Inr ok_response"
    by (cases q2) (auto simp: sample_env_def)
  with res two show ?thesis by auto
qed

text \<open>
  C10. When the retry fires, the second request has the method, the URL and the payload of
  the first, and its headers are those of the first but for \<open>x-csrf-token\<close>, which holds
  the token just fetched. Its \<open>Authorization\<close> header is still the bearer token that
  \<open>authenticate\<close> returned before the first attempt, whatever token the client has cached
  by then.
\<close>

theorem retry_keeps_bearer:
  assumes "authenticate E (c, w) = (Inr tok, c0, w0)"
      and "prepare E method endpoint pl (c, w) = (Inr q, c1, w1)"
      and "upstream E (sent w1) q = Inr r"
      and "csrf_rejected r"
      and "fetch_csrf E (c1, w1\<lparr>sent := sent w1 @ [q]\<rparr>) = (Inr t, c2, w2)"
  shows "\<exists>h h2 res w3.
           q = Request (upper method) (build_url (base_url c) endpoint) h pl
           \<and> sync_request E method endpoint pl (c, w) = (res, c2, w3)
           \<and> last (sent w3) = Request (upper method) (build_url (base_url c) endpoint) h2 pl
           \<and> map_of h ''Authorization'' = Some (Bearer tok)
           \<and> map_of h2 ''Authorization'' = Some (Bearer tok)
           \<and> map_of h2 ''x-csrf-token'' = Some (of_opt t)
           \<and> (\<forall>k. k \<noteq> ''x-csrf-token'' \<longrightarrow> map_of h2 k = map_of h k)"
proof -
  from sync_request_retry [OF assms(2-5)] obtain h where
    q: "q = Request (upper method) (build_url (base_url c) endpoint) h pl"
    and run: "sync_request E method endpoint pl (c, w)
               = (upstream E (sent w2)
                    (Request (upper method) (build_url (base_url c) endpoint)
                       (AList.update ''x-csrf-token'' (of_opt t) h) pl),
                  c2,
                  w2\<lparr>sent := sent w2 @
                     [Request (upper method) (build_url (base_url c) endpoint)
                        (AList.update ''x-csrf-token'' (of_opt t) h) pl]\<rparr>)"
    by blast
  from prepare_request [OF assms(2)] assms(1) q obtain c1' w1' where
    b: "attach_csrf E method (request_headers tok) (c1', w1') = (Inr h, c1, w1)" by auto
  have auth: "map_of h ''Authorization'' = Some (Bearer tok)"
    using attach_csrf_headers [OF b] map_of_request_headers [of tok] by simp
  let ?h2 = "AList.update ''x-csrf-token'' (of_opt t) h"
  have "map_of ?h2 ''Authorization'' = Some (Bearer tok)
        \<and> map_of ?h2 ''x-csrf-token'' = Some (of_opt t)
        \<and> (\<forall>k. k \<noteq> ''x-csrf-token'' \<longrightarrow> map_of ?h2 k = map_of h k)"
    using auth by (simp add: update_conv')
  with q run auth show ?thesis
    by (intro exI [of _ h] exI [of _ ?h2]) simp
qed

text \<open>
  The sample deployment: the first token has expired when the CSRF token is fetched
  again, so the client ends with \<open>tok2\<close> cached, and the retried request still carries
  \<open>tok1\<close>.
\<close>

theorem retry_keeps_bearer_witness:
  "\<exists>h2 res c' w'.
     sync_request sample_env ''post'' ''stories'' None (sample_client, fresh_world) = (res, c', w')
     \<and> last (sent w') = Request ''POST'' ''https://sac.example/stories'' h2 None
     \<and> map_of h2 ''Authorization'' = Some (Bearer (JStr ''tok1''))
     \<and> access_token c' = JStr ''tok2''"
proof -
  obtain c0 w0 where
    a: "authenticate sample_env (sample_client, fresh_world) = (Inr (JStr ''tok1''), c0, w0)"
    by (simp add: run_defs sample_defs)
  obtain q c1 w1 where
    run: "prepare sample_env ''post'' ''stories'' None (sample_client, fresh_world) = (Inr q, c1, w1)"
    and up: "upstream sample_env (sent w1) q = Inr rejected_response"
    by (simp add: run_defs sample_defs)
  have rej: "csrf_rejected rejected_response"
    by (simp add: csrf_rejected_def rejected_response_def upper_def upper_char_def)
  obtain t c2 w2 where
    f: "fetch_csrf sample_env (c1, w1\<lparr>sent := sent w1 @ [q]\<rparr>) = (Inr t, c2, w2)"
    using fetch_csrf_sample by blast
  have tok2: "access_token (fst (snd (sync_request sample_env ''post'' ''stories'' None
                (sample_client, fresh_world)))) = JStr ''tok2''"
    by (simp add: run_defs sample_defs)
  from retry_keeps_bearer [OF a run up rej f] tok2 show ?thesis
    by (auto simp: sample_defs upper_def upper_char_def build_url_def)
qed

section \<open>One client for each relay call\<close>

text \<open>
  The requests of a run: nothing but token and CSRF requests when the credentials could
  not be had; otherwise the request, sent once, or sent twice with a CSRF fetch between.
\<close>

lemma sync_request_shape:
  assumes "sync_request E method endpoint pl (c, w) = (res, c', w')"
  shows "(\<exists>e. prepare E method endpoint pl (c, w) = (Inl e, c', w'))
       \<or> (\<exists>q c1 w1 ys. prepare E method endpoint pl (c, w) = (Inr q, c1, w1)
             \<and> sent w' = sent w1 @ [q] @ ys \<and> (\<forall>x\<in>set ys. \<not> is_Request x))
       \<or> (\<exists>q c1 w1 ys h t. prepare E method endpoint pl (c, w) = (Inr q, c1, w1)
             \<and> q = Request (upper method) (build_url (base_url c) endpoint) h pl
             \<and> sent w' = sent w1 @ [q] @ ys
                  @ [Request (upper method) (build_url (base_url c) endpoint)
                       (AList.update ''x-csrf-token'' (of_opt t) h) pl]
             \<and> (\<forall>x\<in>set ys. \<not> is_Request x))"
proof -
  obtain pr c1 w1 where p: "prepare E method endpoint pl (c, w) = (pr, c1, w1)"
    by (cases "prepare E method endpoint pl (c, w)") auto
  show ?thesis
  proof (cases pr)
    case (Inl e)
    with assms p have "c' = c1 \<and> w' = w1" by (simp add: sync_request_prepare)
    with p Inl show ?thesis by (intro disjI1 exI [of _ e]) simp
  next
    case (Inr q)
    with p have p': "prepare E method endpoint pl (c, w) = (Inr q, c1, w1)" by simp
    have once: "sent w' = sent w1 @ [q] @ [] \<Longrightarrow> ?thesis"
      using p'
      by (intro disjI2 disjI1 exI [of _ q] exI [of _ c1] exI [of _ w1] exI [of _ "[]"]) simp
    show ?thesis
    proof (cases "upstream E (sent w1) q")
      case (Inl e)
      with assms p' have "sent w' = sent w1 @ [q] @ []"
        by (simp add: sync_request_prepare send_def) auto
      then show ?thesis by (rule once)
    next
      case (Inr r)
      show ?thesis
      proof (cases "csrf_rejected r")
        case False
        from sync_request_once [OF p' Inr False] assms
        have "sent w' = sent w1 @ [q] @ []" by simp
        then show ?thesis by (rule once)
      next
        case True
        obtain fr c2 w2 where
          f: "fetch_csrf E (c1, w1\<lparr>sent := sent w1 @ [q]\<rparr>) = (fr, c2, w2)"
          by (cases "fetch_csrf E (c1, w1\<lparr>sent := sent w1 @ [q]\<rparr>)") auto
        from fetch_csrf_sent [OF f] obtain ys where
          ys: "sent w2 = sent w1 @ [q] @ ys" "\<forall>x\<in>set ys. \<not> is_Request x" by auto
        show ?thesis
        proof (cases fr)
          case (Inl e)
          with assms p' Inr True f have "w' = w2"
            by (simp add: sync_request_prepare send_def)
          with ys p' show ?thesis
            by (intro disjI2 disjI1 exI [of _ q] exI [of _ c1] exI [of _ w1]
                  exI [of _ ys]) simp
        next
          case t: (Inr t)
          with f have f': "fetch_csrf E (c1, w1\<lparr>sent := sent w1 @ [q]\<rparr>) = (Inr t, c2, w2)"
            by simp
          from sync_request_retry [OF p' Inr True f'] assms obtain h where
            q: "q = Request (upper method) (build_url (base_url c) endpoint) h pl"
            and w': "sent w' = sent w2 @
                     [Request (upper method) (build_url (base_url c) endpoint)
                        (AList.update ''x-csrf-token'' (of_opt t) h) pl]"
            by fastforce
          from w' ys have
            "sent w' = sent w1 @ [q] @ ys
                  @ [Request (upper method) (build_url (base_url c) endpoint)
                       (AList.update ''x-csrf-token'' (of_opt t) h) pl]"
            by simp
          with p' q ys(2) show ?thesis
            by (intro disjI2 exI [of _ q] exI [of _ c1] exI [of _ w1]
                  exI [of _ ys] exI [of _ h] exI [of _ t]) simp
        qed
      qed
    qed
  qed
qed

text \<open>Every request of a run carries the bearer token that \<open>authenticate\<close> returned at its start.\<close>

lemma sync_request_bearer:
  assumes "sync_request E method endpoint pl (c, w) = (res, c', w')"
      and "Request m u h p \<in> set (sent_between w w')"
  shows "\<exists>tok c0 w0. authenticate E (c, w) = (Inr tok, c0, w0)
           \<and> map_of h ''Authorization'' = Some (Bearer tok)"
proof -
  have first: "\<exists>tok c0 w0. authenticate E (c, w) = (Inr tok, c0, w0)
                 \<and> map_of h1 ''Authorization'' = Some (Bearer tok)"
    if "prepare E method endpoint pl (c, w) = (Inr (Request m1 u1 h1 p1), c1, w1)"
    for m1 u1 h1 p1 c1 w1
  proof -
    from prepare_request [OF that] obtain tok c0 w0 where
      a: "authenticate E (c, w) = (Inr tok, c0, w0)"
      and b: "attach_csrf E method (request_headers tok) (c0, w0) = (Inr h1, c1, w1)"
      by auto
    from attach_csrf_headers [OF b] map_of_request_headers [of tok]
    have "map_of h1 ''Authorization'' = Some (Bearer tok)" by simp
    with a show ?thesis by blast
  qed
  from sync_request_shape [OF assms(1)]
  consider
    (failed) e where "prepare E method endpoint pl (c, w) = (Inl e, c', w')"
  | (once) q c1 w1 ys where "prepare E method endpoint pl (c, w) = (Inr q, c1, w1)"
      "sent w' = sent w1 @ [q] @ ys" "\<forall>x\<in>set ys. \<not> is_Request x"
  | (twice) q c1 w1 ys h1 t where "prepare E method endpoint pl (c, w) = (Inr q, c1, w1)"
      "q = Request (upper method) (build_url (base_url c) endpoint) h1 pl"
      "sent w' = sent w1 @ [q] @ ys
          @ [Request (upper method) (build_url (base_url c) endpoint)
               (AList.update ''x-csrf-token'' (of_opt t) h1) pl]"
      "\<forall>x\<in>set ys. \<not> is_Request x"
    by blast
  then show ?thesis
  proof cases
    case failed
    from prepare_sent [OF failed] obtain xs where
      xs: "sent w' = sent w @ xs" "\<forall>x\<in>set xs. \<not> is_Request x" by blast
    with assms(2) have "Request m u h p \<in> set xs" by (simp add: sent_between_def)
    with xs(2) have "\<not> is_Request (Request m u h p)" by blast
    then show ?thesis by simp
  next
    case once
    from prepare_sent [OF once(1)] obtain xs where
      xs: "sent w1 = sent w @ xs" "\<forall>x\<in>set xs. \<not> is_Request x" by blast
    with once(2) assms(2) have "Request m u h p \<in> set xs \<union> {q} \<union> set ys"
      by (auto simp: sent_between_def)
    with xs(2) once(3) have "q = Request m u h p" by fastforce
    with once(1) first show ?thesis by simp
  next
    case twice
    let ?q2 = "Request (upper method) (build_url (base_url c) endpoint)
                 (AList.update ''x-csrf-token'' (of_opt t) h1) pl"
    from prepare_sent [OF twice(1)] obtain xs where
      xs: "sent w1 = sent w @ xs" "\<forall>x\<in>set xs. \<not> is_Request x" by blast
    with twice(3) assms(2) have "Request m u h p \<in> set xs \<union> {q} \<union> set ys \<union> {?q2}"
      by (auto simp: sent_between_def)
    with xs(2) twice(4) have "q = Request m u h p \<or> ?q2 = Request m u h p" by fastforce
    then show ?thesis
    proof
      assume "q = Request m u h p"
      with twice(1) first show ?thesis by simp
    next
      assume e: "?q2 = Request m u h p"
      from twice(1,2) first [of "upper method" "build_url (base_url c) endpoint" h1 pl c1 w1]
      obtain tok c0 w0 where a: "authenticate E (c, w) = (Inr tok, c0, w0)"
        and hd: "map_of h1 ''Authorization'' = Some (Bearer tok)" by auto
      from e have "h = AList.update ''x-csrf-token'' (of_opt t) h1" by simp
      with hd have "map_of h ''Authorization'' = Some (Bearer tok)"
        by (simp add: update_conv')
      with a show ?thesis by blast
    qed
  qed
qed

text \<open>A client without a token gets the one it returns from the answer of the token endpoint.\<close>

lemma authenticate_fresh:
  assumes "access_token c = JNull"
      and "authenticate E (c, w) = (Inr tok, c0, w0)"
  shows "\<exists>res kvs. upstream E (sent w) (Post (token_url c) (token_form c)) = Inr res
           \<and> json res = Some (JObj kvs) \<and> map_of kvs ''access_token'' = Some tok"
proof -
  from assms have a: "acquire_token E (c, w) = (Inr tok, c0, w0)"
    by (simp add: authenticate_def)
  then obtain res where u: "upstream E (sent w) (Post (token_url c) (token_form c)) = Inr res"
    by (cases "upstream E (sent w) (Post (token_url c) (token_form c))")
       (auto simp: acquire_token_def send_def)
  from a u obtain d where d: "json res = Some d" and s: "subscript d ''access_token'' = Inr tok"
    by (auto simp: acquire_token_def send_def now_def Let_def
             split: if_splits option.splits sum.splits)
  from s subscript_ok [of d "''access_token''" tok] d u show ?thesis by auto
qed

lemma prepare_fresh_sent:
  assumes "access_token c = JNull"
      and "prepare E method endpoint pl (c, w) = (pr, c1, w1)"
  shows "\<exists>rest. sent w1 = sent w @ Post (token_url c) (token_form c) # rest"
proof -
  obtain r0 c0 w0 where a: "authenticate E (c, w) = (r0, c0, w0)"
    by (cases "authenticate E (c, w)") auto
  from authenticate_cached_token [of c E w] assms(1) a
  have w0: "sent w0 = sent w @ [Post (token_url c) (token_form c)]" by auto
  show ?thesis
  proof (cases r0)
    case (Inl e)
    with assms(2) a have "w1 = w0" by (simp add: prepare_def)
    with w0 show ?thesis by simp
  next
    case (Inr tok)
    obtain r2 c2 w2 where
      b: "attach_csrf E method (request_headers tok) (c0, w0) = (r2, c2, w2)"
      by (cases "attach_csrf E method (request_headers tok) (c0, w0)") auto
    from attach_csrf_sent [OF b] obtain ys where ys: "sent w2 = sent w0 @ ys" by blast
    from assms(2) a b Inr have "w1 = w2" by (auto simp: prepare_def split: sum.splits)
    with ys w0 show ?thesis by simp
  qed
qed

lemma sync_request_fresh_sent:
  assumes "access_token c = JNull"
      and "sync_request E method endpoint pl (c, w) = (res, c', w')"
  shows "\<exists>rest. sent w' = sent w @ Post (token_url c) (token_form c) # rest"
proof -
  from sync_request_shape [OF assms(2)]
  consider
    (failed) e where "prepare E method endpoint pl (c, w) = (Inl e, c', w')"
  | (once) q c1 w1 ys where "prepare E method endpoint pl (c, w) = (Inr q, c1, w1)"
      "sent w' = sent w1 @ [q] @ ys"
  | (twice) q c1 w1 zs where "prepare E method endpoint pl (c, w) = (Inr q, c1, w1)"
      "sent w' = sent w1 @ [q] @ zs"
    by fastforce
  then show ?thesis
  proof cases
    case failed
    from prepare_fresh_sent [OF assms(1) failed] show ?thesis .
  next
    case once
    from prepare_fresh_sent [OF assms(1) once(1)] once(2) show ?thesis by auto
  next
    case twice
    from prepare_fresh_sent [OF assms(1) twice(1)] twice(2) show ?thesis by auto
  qed
qed

end
